theory Spec2Isabelle
  imports Main "HOL-Library.Stream" "HOL-Library.Sublist"
begin

section \<open>Shared data model of the two task builders\<close>

text \<open>
  \<^verbatim>\<open>krc.py\<close> and \<^verbatim>\<open>krfix.py\<close> each define a class \<^verbatim>\<open>TaskBuilder\<close>. The constructor and
  the methods \<^verbatim>\<open>random_string\<close>, \<^verbatim>\<open>random_integer\<close>, \<^verbatim>\<open>uniquify\<close>, \<^verbatim>\<open>value\<close> and
  \<^verbatim>\<open>function_name\<close> are the same statements in both files, so they are embedded once.

  The configuration object is only ever read (\<^verbatim>\<open>self.cfg.x\<close>), so it is a parameter of
  every method. The mutable part of an instance is the randomness source and the set
  \<^verbatim>\<open>used_values\<close>; every method takes it and returns it updated.
\<close>

record configuration =
  return_type :: string
  return_length :: int
  function_name_cfg :: string
  function_name_min_parts :: int
  function_name_max_parts :: int
  function_name_part_length :: int
  call_graph_comment_type :: string
  call_graph_template_variant :: string

text \<open>
  \<^verbatim>\<open>random.Random\<close> is abstracted to the stream of numbers it will hand out: one call of
  its \<^verbatim>\<open>_randbelow(n)\<close> takes the next element, reduced modulo \<open>n\<close>, and advances the
  stream. Two sources seeded alike are the same stream.
\<close>

record TaskBuilder =
  rng :: "nat stream"
  used_values :: "string set"

datatype error = ValueError | AssertionError

type_synonym 'a outcome = "((error + 'a) \<times> TaskBuilder) option"

text \<open>\<^verbatim>\<open>__init__\<close>: the registry of used values starts empty.\<close>

definition TaskBuilder_init :: "nat stream \<Rightarrow> TaskBuilder" where
  "TaskBuilder_init random_number_generator =
     \<lparr>rng = random_number_generator, used_values = {}\<rparr>"

text \<open>
  \<^verbatim>\<open>rng.choice(seq)\<close> is \<^verbatim>\<open>seq[self._randbelow(len(seq))]\<close>. Every sequence the builders
  pass is a non-empty literal; on an empty one Python raises \<^verbatim>\<open>IndexError\<close>, which no call
  below can reach.
\<close>

definition choice :: "'a list \<Rightarrow> nat stream \<Rightarrow> 'a \<times> nat stream" where
  "choice seq g = (seq ! (shd g mod length seq), stl g)"

text \<open>
  \<^verbatim>\<open>rng.randint(a, b)\<close> is \<^verbatim>\<open>randrange(a, b + 1)\<close>: it raises \<^verbatim>\<open>ValueError\<close> on an empty
  range, before anything is drawn.
\<close>

definition randint :: "int \<Rightarrow> int \<Rightarrow> nat stream \<Rightarrow> (error + int) \<times> nat stream" where
  "randint a b g =
     (if b < a then (Inl ValueError, g)
      else (Inr (a + int (shd g mod nat (b - a + 1))), stl g))"

definition lowercase :: string where
  "lowercase = ''abcdefghijklmnopqrstuvwxyz''"

definition digits :: string where
  "digits = ''0123456789''"

definition nonzero_digits :: string where
  "nonzero_digits = ''123456789''"

text \<open>\<^verbatim>\<open>random_string\<close>: the loop \<^verbatim>\<open>while len(r) < length: r += choice(...)\<close>.\<close>

function random_string_loop :: "int \<Rightarrow> string \<Rightarrow> nat stream \<Rightarrow> string \<times> nat stream" where
  "random_string_loop len r g =
     (if int (length r) < len
      then (case choice lowercase g of (c, g') \<Rightarrow> random_string_loop len (r @ [c]) g')
      else (r, g))"
  by pat_completeness auto
termination
  by (relation "measure (\<lambda>(len, r, g). nat (len - int (length r)))") auto

definition random_string :: "int \<Rightarrow> nat stream \<Rightarrow> string \<times> nat stream" where
  "random_string len g = random_string_loop len [] g"

text \<open>
  \<^verbatim>\<open>random_integer\<close>: the same loop; the alphabet is \<^verbatim>\<open>"123456789"\<close> while \<^verbatim>\<open>r\<close> is
  still empty and \<^verbatim>\<open>"0123456789"\<close> afterwards.
\<close>

function random_integer_loop :: "int \<Rightarrow> string \<Rightarrow> nat stream \<Rightarrow> string \<times> nat stream" where
  "random_integer_loop len r g =
     (if int (length r) < len
      then (case choice (if r \<noteq> [] then digits else nonzero_digits) g of
              (c, g') \<Rightarrow> random_integer_loop len (r @ [c]) g')
      else (r, g))"
  by pat_completeness auto
termination
  by (relation "measure (\<lambda>(len, r, g). nat (len - int (length r)))") auto

definition random_integer :: "int \<Rightarrow> nat stream \<Rightarrow> string \<times> nat stream" where
  "random_integer len g = random_integer_loop len [] g"

text \<open>
  \<^verbatim>\<open>uniquify\<close>: \<^verbatim>\<open>while True\<close> with no bound on the retries, so the model is a partial
  function: \<open>None\<close> is the run that never returns. The generator is a bound method of the
  same instance (\<^verbatim>\<open>self.random_string\<close> or \<^verbatim>\<open>self.random_integer\<close> with its keyword
  argument), which reads and advances the randomness source.
\<close>

partial_function (option) uniquify ::
  "(nat stream \<Rightarrow> string \<times> nat stream) \<Rightarrow> TaskBuilder \<Rightarrow> (string \<times> TaskBuilder) option" where
  "uniquify generator tb =
     (case generator (rng tb) of (v, g') \<Rightarrow>
        if v \<notin> used_values tb
        then Some (v, \<lparr>rng = g', used_values = insert v (used_values tb)\<rparr>)
        else uniquify generator (tb\<lparr>rng := g'\<rparr>))"

text \<open>
  \<^verbatim>\<open>value\<close>: \<^verbatim>\<open>length\<close> is optional and defaults to \<^verbatim>\<open>cfg.return_length\<close>. A string value
  is returned in double quotes, but what \<^verbatim>\<open>uniquify\<close> put into the registry is the text
  between them.
\<close>

definition value_fn :: "configuration \<Rightarrow> int option \<Rightarrow> TaskBuilder \<Rightarrow> string outcome" where
  "value_fn cfg length_opt tb =
     (let len = (case length_opt of None \<Rightarrow> return_length cfg | Some l \<Rightarrow> l) in
      if return_type cfg = ''string''
      then (case uniquify (random_string len) tb of
              None \<Rightarrow> None
            | Some (s, tb') \<Rightarrow> Some (Inr ([CHR 0x22] @ s @ [CHR 0x22]), tb'))
      else if return_type cfg = ''integer''
      then (case uniquify (random_integer len) tb of
              None \<Rightarrow> None
            | Some (s, tb') \<Rightarrow> Some (Inr s, tb'))
      else Some (Inl ValueError, tb))"

text \<open>\<^verbatim>\<open>str(index)\<close> for a non-negative integer: its decimal digits.\<close>

function str_nat :: "nat \<Rightarrow> string" where
  "str_nat n = (if n < 10 then [digits ! n] else str_nat (n div 10) @ [digits ! (n mod 10)])"
  by pat_completeness auto
termination
  by (relation "measure (\<lambda>n. n)") auto

text \<open>\<^verbatim>\<open>sep.join(parts)\<close>.\<close>

fun join :: "string \<Rightarrow> string list \<Rightarrow> string" where
  "join sep [] = []"
| "join sep [p] = p"
| "join sep (p # q # ps) = p @ sep @ join sep (q # ps)"

text \<open>
  The \<^verbatim>\<open>for i in range(n_parts)\<close> loop of the random scheme, over the list of the indices
  that \<^verbatim>\<open>range\<close> yields. Part 0 is a random string, part 1 a random integer, and for a
  later part the source draws the generator itself from the randomness source.
\<close>

fun random_parts ::
  "int \<Rightarrow> nat list \<Rightarrow> string list \<Rightarrow> TaskBuilder \<Rightarrow> (string list \<times> TaskBuilder) option" where
  "random_parts len [] parts tb = Some (parts, tb)"
| "random_parts len (i # is) parts tb =
     (case (if i = 0 then (random_string, tb)
            else if i = 1 then (random_integer, tb)
            else (case choice [random_integer, random_string] (rng tb) of
                    (fn, g') \<Rightarrow> (fn, tb\<lparr>rng := g'\<rparr>))) of
        (fn, tb1) \<Rightarrow>
          (case uniquify (fn len) tb1 of
             None \<Rightarrow> None
           | Some (p, tb2) \<Rightarrow> random_parts len is (parts @ [p]) tb2))"

text \<open>
  The \<^verbatim>\<open>while True\<close> loop of the fixed scheme: the canonical name, then the canonical
  name with \<^verbatim>\<open>_1\<close>, \<^verbatim>\<open>_2\<close>, ... until a candidate is not in the registry.
\<close>

partial_function (option) fixed_name_loop ::
  "string \<Rightarrow> nat \<Rightarrow> TaskBuilder \<Rightarrow> (string \<times> TaskBuilder) option" where
  "fixed_name_loop canonical index tb =
     (let candidate = (if index = 0 then canonical else canonical @ ''_'' @ str_nat index) in
      if candidate \<notin> used_values tb
      then Some (candidate, tb\<lparr>used_values := insert candidate (used_values tb)\<rparr>)
      else fixed_name_loop canonical (index + 1) tb)"

definition function_name :: "configuration \<Rightarrow> string \<Rightarrow> TaskBuilder \<Rightarrow> string outcome" where
  "function_name cfg canonical tb =
     (if function_name_cfg cfg = ''random''
      then (case randint (function_name_min_parts cfg) (function_name_max_parts cfg) (rng tb) of
              (Inl e, g') \<Rightarrow> Some (Inl e, tb\<lparr>rng := g'\<rparr>)
            | (Inr n_parts, g') \<Rightarrow>
                (case random_parts (function_name_part_length cfg) [0 ..< nat n_parts] []
                        (tb\<lparr>rng := g'\<rparr>) of
                   None \<Rightarrow> None
                 | Some (parts, tb') \<Rightarrow> Some (Inr (join ''_'' parts), tb')))
      else if function_name_cfg cfg = ''fixed''
      then (case fixed_name_loop canonical 0 tb of
              None \<Rightarrow> None
            | Some (candidate, tb') \<Rightarrow> Some (Inr candidate, tb'))
      else Some (Inl ValueError, tb))"

section \<open>The retrieval shapes of \<^verbatim>\<open>krc.py\<close>\<close>

text \<open>
  A method that raises leaves the instance as it was at the \<^verbatim>\<open>raise\<close>; a method that
  never returns has no outcome. Sequencing two calls passes the instance on and stops at
  the first exception.
\<close>

definition bind_outcome ::
  "'a outcome \<Rightarrow> ('a \<Rightarrow> TaskBuilder \<Rightarrow> 'b outcome) \<Rightarrow> 'b outcome" where
  "bind_outcome m f =
     (case m of
        None \<Rightarrow> None
      | Some (Inl e, tb) \<Rightarrow> Some (Inl e, tb)
      | Some (Inr x, tb) \<Rightarrow> f x tb)"

definition newline :: string where
  "newline = [CHR 0x0A]"

definition dquote :: string where
  "dquote = [CHR 0x22]"

text \<open>The slice \<^verbatim>\<open>s[1:-1]\<close>: the characters at the indices \<open>1 \<dots> len(s) - 2\<close>.\<close>

definition slice_1_neg1 :: "string \<Rightarrow> string" where
  "slice_1_neg1 s = take (length s - 2) (drop 1 s)"

type_synonym task = "string list \<times> string \<times> string"

definition one_step :: "configuration \<Rightarrow> TaskBuilder \<Rightarrow> task outcome" where
  "one_step cfg tb =
     bind_outcome (value_fn cfg None tb) (\<lambda>return_value tb.
     bind_outcome (function_name cfg ''key_function'' tb) (\<lambda>func_key tb.
       Some (Inr ([''def '' @ func_key @ ''():'' @ newline @ ''    return '' @ return_value],
                  ''assert '' @ func_key @ ''() =='',
                  '' '' @ return_value), tb)))"

definition two_step :: "configuration \<Rightarrow> TaskBuilder \<Rightarrow> task outcome" where
  "two_step cfg tb =
     bind_outcome (value_fn cfg None tb) (\<lambda>return_value tb.
     bind_outcome (function_name cfg ''key_function'' tb) (\<lambda>func_key tb.
     bind_outcome (function_name cfg ''value_function'' tb) (\<lambda>func_val tb.
       Some (Inr ([''def '' @ func_val @ ''():'' @ newline @ ''    return '' @ return_value,
                   ''def '' @ func_key @ ''():'' @ newline @ ''    return '' @ func_val @ ''()''],
                  ''assert '' @ func_key @ ''() =='',
                  '' '' @ return_value), tb))))"

definition krc_three_step :: "configuration \<Rightarrow> TaskBuilder \<Rightarrow> task outcome" where
  "krc_three_step cfg tb =
     bind_outcome (value_fn cfg None tb) (\<lambda>return_value tb.
     bind_outcome (function_name cfg ''key_function'' tb) (\<lambda>func_key tb.
     bind_outcome (function_name cfg ''value_function_1'' tb) (\<lambda>func_val_1 tb.
     bind_outcome (function_name cfg ''value_function_2'' tb) (\<lambda>func_val_2 tb.
       Some (Inr ([''def '' @ func_val_1 @ ''():'' @ newline @ ''    return '' @ return_value,
                   ''def '' @ func_val_2 @ ''():'' @ newline @ ''    return '' @ func_val_1 @ ''()'',
                   ''def '' @ func_key @ ''():'' @ newline @ ''    return '' @ func_val_2 @ ''()''],
                  ''assert '' @ func_key @ ''() =='',
                  '' '' @ return_value), tb)))))"

text \<open>
  \<^verbatim>\<open>concatenation\<close> starts with \<^verbatim>\<open>assert self.cfg.return_type == "string"\<close>; both halves
  are drawn with the length \<^verbatim>\<open>return_length // 2\<close> (floor division, as \<open>div\<close> on \<open>int\<close>).
\<close>

definition krc_concatenation :: "configuration \<Rightarrow> TaskBuilder \<Rightarrow> task outcome" where
  "krc_concatenation cfg tb =
     (if return_type cfg \<noteq> ''string'' then Some (Inl AssertionError, tb)
      else
     bind_outcome (value_fn cfg (Some (return_length cfg div 2)) tb) (\<lambda>return_value_1 tb.
     bind_outcome (value_fn cfg (Some (return_length cfg div 2)) tb) (\<lambda>return_value_2 tb.
     bind_outcome (function_name cfg ''key_function'' tb) (\<lambda>func_key tb.
     bind_outcome (function_name cfg ''value_function_1'' tb) (\<lambda>func_val_1 tb.
     bind_outcome (function_name cfg ''value_function_2'' tb) (\<lambda>func_val_2 tb.
       Some (Inr ([''def '' @ func_val_1 @ ''():'' @ newline @ ''    return '' @ return_value_1,
                   ''def '' @ func_val_2 @ ''():'' @ newline @ ''    return '' @ return_value_2,
                   ''def '' @ func_key @ ''():'' @ newline @ ''    return '' @ func_val_1
                     @ ''() + '' @ func_val_2 @ ''()''],
                  ''assert '' @ func_key @ ''() =='',
                  '' '' @ dquote @ slice_1_neg1 return_value_1 @ slice_1_neg1 return_value_2
                    @ dquote), tb)))))))"

definition krc_build :: "configuration \<Rightarrow> string \<Rightarrow> TaskBuilder \<Rightarrow> task outcome" where
  "krc_build cfg variant tb =
     (if variant = ''one-step'' then one_step cfg tb
      else if variant = ''two-step'' then two_step cfg tb
      else if variant = ''three-step'' then krc_three_step cfg tb
      else if variant = ''concatenation'' then krc_concatenation cfg tb
      else Some (Inl ValueError, tb))"

section \<open>The annotated shapes of \<^verbatim>\<open>krfix.py\<close>\<close>

text \<open>\<^verbatim>\<open>needle in haystack\<close> on two strings: substring containment.\<close>

fun str_contains :: "string \<Rightarrow> string \<Rightarrow> bool" where
  "str_contains needle [] = (needle = [])"
| "str_contains needle (c # cs) = (prefix needle (c # cs) \<or> str_contains needle cs)"

definition call_graph_comment :: "configuration \<Rightarrow> string \<Rightarrow> string list \<Rightarrow> error + string" where
  "call_graph_comment cfg direction func_names =
     (let template_variant = call_graph_template_variant cfg in
      if template_variant = ''calls_called_by''
      then (if direction = ''calls''
            then Inr (''# This function calls '' @ join '' and '' func_names @ newline)
            else if direction = ''called_by''
            then Inr (''# This function is called by '' @ join '' and '' func_names @ newline)
            else Inl ValueError)
      else if template_variant = ''function_names_only''
      then Inr (''# '' @ join '', '' func_names @ newline)
      else Inl ValueError)"

text \<open>
  An exception of \<^verbatim>\<open>call_graph_comment\<close> leaves the method at once; the instance keeps
  what the earlier calls did to it.
\<close>

definition bind_error :: "error + 'a \<Rightarrow> ('a \<Rightarrow> TaskBuilder \<Rightarrow> 'b outcome) \<Rightarrow> TaskBuilder \<Rightarrow> 'b outcome" where
  "bind_error r f tb = (case r of Inl e \<Rightarrow> Some (Inl e, tb) | Inr x \<Rightarrow> f x tb)"

definition krfix_three_step :: "configuration \<Rightarrow> TaskBuilder \<Rightarrow> task outcome" where
  "krfix_three_step cfg tb =
     bind_outcome (value_fn cfg None tb) (\<lambda>return_value tb.
     bind_outcome (function_name cfg ''key_function'' tb) (\<lambda>func_key tb.
     bind_outcome (function_name cfg ''value_function_1'' tb) (\<lambda>func_val_1 tb.
     bind_outcome (function_name cfg ''value_function_2'' tb) (\<lambda>func_val_2 tb.
     let func_1_decl = ''def '' @ func_val_1 @ ''():'' @ newline @ ''    return '' @ return_value;
         func_2_decl = ''def '' @ func_val_2 @ ''():'' @ newline @ ''    return '' @ func_val_1 @ ''()'';
         func_key_decl = ''def '' @ func_key @ ''():'' @ newline @ ''    return '' @ func_val_2 @ ''()''
     in
     bind_outcome
       (if str_contains ''called_by'' (call_graph_comment_type cfg)
        then bind_error (call_graph_comment cfg ''called_by'' [func_val_2, func_key])
               (\<lambda>called_by_comment tb.
                  let func_1_decl = called_by_comment @ func_1_decl in
                  bind_error (call_graph_comment cfg ''called_by'' [func_key])
                    (\<lambda>called_by_comment tb.
                       let func_2_decl = called_by_comment @ func_2_decl in
                       Some (Inr (func_1_decl, func_2_decl), tb)) tb) tb
        else Some (Inr (func_1_decl, func_2_decl), tb))
       (\<lambda>(func_1_decl, func_2_decl) tb.
     bind_outcome
       (if str_contains ''calls'' (call_graph_comment_type cfg)
        then bind_error (call_graph_comment cfg ''calls'' [func_val_2, func_val_1])
               (\<lambda>calls_comment tb.
                  let func_key_decl = calls_comment @ func_key_decl in
                  bind_error (call_graph_comment cfg ''calls'' [func_val_1])
                    (\<lambda>calls_comment tb.
                       let func_2_decl = calls_comment @ func_2_decl in
                       Some (Inr (func_2_decl, func_key_decl), tb)) tb) tb
        else Some (Inr (func_2_decl, func_key_decl), tb))
       (\<lambda>(func_2_decl, func_key_decl) tb.
          Some (Inr ([func_1_decl, func_2_decl, func_key_decl],
                     ''assert '' @ func_key @ ''() =='',
                     '' '' @ return_value), tb)))))))"

definition krfix_concatenation :: "configuration \<Rightarrow> TaskBuilder \<Rightarrow> task outcome" where
  "krfix_concatenation cfg tb =
     (if return_type cfg \<noteq> ''string'' then Some (Inl AssertionError, tb)
      else
     bind_outcome (value_fn cfg (Some (return_length cfg div 2)) tb) (\<lambda>return_value_1 tb.
     bind_outcome (value_fn cfg (Some (return_length cfg div 2)) tb) (\<lambda>return_value_2 tb.
     bind_outcome (function_name cfg ''key_function'' tb) (\<lambda>func_key tb.
     bind_outcome (function_name cfg ''value_function_1'' tb) (\<lambda>func_val_1 tb.
     bind_outcome (function_name cfg ''value_function_2'' tb) (\<lambda>func_val_2 tb.
     let func_1_decl = ''def '' @ func_val_1 @ ''():'' @ newline @ ''    return '' @ return_value_1;
         func_2_decl = ''def '' @ func_val_2 @ ''():'' @ newline @ ''    return '' @ return_value_2;
         func_key_decl = ''def '' @ func_key @ ''():'' @ newline @ ''    return '' @ func_val_1
                           @ ''() + '' @ func_val_2 @ ''()''
     in
     bind_outcome
       (if str_contains ''called_by'' (call_graph_comment_type cfg)
        then bind_error (call_graph_comment cfg ''called_by'' [func_key])
               (\<lambda>called_by_comment tb.
                  Some (Inr (called_by_comment @ func_1_decl, called_by_comment @ func_2_decl), tb))
               tb
        else Some (Inr (func_1_decl, func_2_decl), tb))
       (\<lambda>(func_1_decl, func_2_decl) tb.
     bind_outcome
       (if str_contains ''calls'' (call_graph_comment_type cfg)
        then bind_error (call_graph_comment cfg ''calls'' [func_val_1, func_val_2])
               (\<lambda>calls_comment tb. Some (Inr (calls_comment @ func_key_decl), tb)) tb
        else Some (Inr func_key_decl, tb))
       (\<lambda>func_key_decl tb.
          Some (Inr ([func_1_decl, func_2_decl, func_key_decl],
                     ''assert '' @ func_key @ ''() =='',
                     '' '' @ dquote @ slice_1_neg1 return_value_1 @ slice_1_neg1 return_value_2
                       @ dquote), tb)))))))))"

definition krfix_build :: "configuration \<Rightarrow> string \<Rightarrow> TaskBuilder \<Rightarrow> task outcome" where
  "krfix_build cfg variant tb =
     (if variant = ''three-step'' then krfix_three_step cfg tb
      else if variant = ''concatenation'' then krfix_concatenation cfg tb
      else Some (Inl ValueError, tb))"

section \<open>Driving one instance through a sequence of calls\<close>

text \<open>
  A client of one instance calls \<^verbatim>\<open>value\<close>, \<^verbatim>\<open>function_name\<close> and \<^verbatim>\<open>uniquify\<close> in some
  order, or \<^verbatim>\<open>build\<close> several times. A call that raises is recorded with its exception and
  the client goes on with the same instance; a call that never returns ends the run
  without an outcome.
\<close>

datatype call =
  Value "int option"
| FunctionName string
| Uniquify "nat stream \<Rightarrow> string \<times> nat stream"

fun do_call :: "configuration \<Rightarrow> call \<Rightarrow> TaskBuilder \<Rightarrow> string outcome" where
  "do_call cfg (Value length_opt) tb = value_fn cfg length_opt tb"
| "do_call cfg (FunctionName canonical) tb = function_name cfg canonical tb"
| "do_call cfg (Uniquify generator) tb =
     (case uniquify generator tb of None \<Rightarrow> None | Some (v, tb') \<Rightarrow> Some (Inr v, tb'))"

fun run_all ::
  "('c \<Rightarrow> TaskBuilder \<Rightarrow> 'r outcome) \<Rightarrow> 'c list \<Rightarrow> TaskBuilder \<Rightarrow>
     ((error + 'r) list \<times> TaskBuilder) option" where
  "run_all f [] tb = Some ([], tb)"
| "run_all f (c # cs) tb =
     (case f c tb of
        None \<Rightarrow> None
      | Some (r, tb1) \<Rightarrow>
          (case run_all f cs tb1 of
             None \<Rightarrow> None
           | Some (rs, tb2) \<Rightarrow> Some (r # rs, tb2)))"

definition run_calls ::
  "configuration \<Rightarrow> call list \<Rightarrow> TaskBuilder \<Rightarrow> ((error + string) list \<times> TaskBuilder) option" where
  "run_calls cfg calls tb = run_all (do_call cfg) calls tb"







section \<open>Job enumeration and argument lists of \<^verbatim>\<open>generate_data.py\<close>\<close>

text \<open>
  A job configuration is a Python \<^verbatim>\<open>dict\<close> literal: its items in the order they are
  written, with values that are \<^verbatim>\<open>None\<close>, integers or strings.
\<close>

datatype pyval = PyNone | PyInt int | PyStr string

datatype os_error = KeyError | TypeError | FileNotFoundError

type_synonym job = "string \<times> (string \<times> pyval) list"

text \<open>\<^verbatim>\<open>str(value)\<close> and the \<^verbatim>\<open>{...}\<close> fields of the f-strings.\<close>

definition str_int :: "int \<Rightarrow> string" where
  "str_int i = (if i < 0 then ''-'' @ str_nat (nat (- i)) else str_nat (nat i))"

fun str :: "pyval \<Rightarrow> string" where
  "str PyNone = ''None''"
| "str (PyInt i) = str_int i"
| "str (PyStr s) = s"

text \<open>\<^verbatim>\<open>model.split("/")\<close>; the result is never empty, so \<^verbatim>\<open>[-1]\<close> is its last element.\<close>

fun split :: "char \<Rightarrow> string \<Rightarrow> string list" where
  "split sep [] = [[]]"
| "split sep (c # cs) =
     (if c = sep then [] # split sep cs
      else (case split sep cs of [] \<Rightarrow> [[c]] | w # ws \<Rightarrow> (c # w) # ws))"

text \<open>\<^verbatim>\<open>d[key]\<close> raises \<^verbatim>\<open>KeyError\<close> on a missing key; \<^verbatim>\<open>d.get(key)\<close> gives \<^verbatim>\<open>None\<close>.\<close>

definition subscript :: "(string \<times> 'a) list \<Rightarrow> string \<Rightarrow> os_error + 'a" where
  "subscript d key = (case map_of d key of None \<Rightarrow> Inl KeyError | Some v \<Rightarrow> Inr v)"

definition get :: "(string \<times> pyval) list \<Rightarrow> string \<Rightarrow> pyval" where
  "get d key = (case map_of d key of None \<Rightarrow> PyNone | Some v \<Rightarrow> v)"

text \<open>A generator that raises while it is being consumed ends the consumer with it.\<close>

fun collect :: "(os_error + 'a) list \<Rightarrow> os_error + 'a list" where
  "collect [] = Inr []"
| "collect (Inl e # rs) = Inl e"
| "collect (Inr x # rs) = (case collect rs of Inl e \<Rightarrow> Inl e | Inr xs \<Rightarrow> Inr (x # xs))"

definition models :: "string list" where
  "models = [''mistralai/Mistral-7B-v0.1'', ''bigcode/starcoderbase'', ''bigcode/starcoderbase-1b'',
             ''bigcode/starcoderbase-7b'', ''bigcode/starcoder2-7b'']"

definition krc_job :: "int \<Rightarrow> string \<Rightarrow> string \<Rightarrow> int \<Rightarrow> int \<Rightarrow> os_error + job" where
  "krc_job max_prompt_tokens model variant distractors seed =
     (let num_key_functions_dict =
            [(''one-step'', 100), (''two-step'', 20), (''three-step'', 20), (''concatenation'', 20)];
          max_pos_combs_dict =
            [(''one-step'', PyNone), (''two-step'', PyInt 150), (''three-step'', PyInt 50),
             (''concatenation'', PyInt 50)];
          mname = last (split CHR ''/'' model)
      in case subscript num_key_functions_dict variant of
           Inl e \<Rightarrow> Inl e
         | Inr num_key_functions \<Rightarrow>
             Inr (''krc'',
               [(''model_name'', PyStr model),
                (''variant'', PyStr variant),
                (''return_type'', PyStr ''string''),
                (''return_length'', PyInt 10),
                (''function_name'', PyStr ''random''),
                (''num_key_functions'', PyInt num_key_functions),
                (''max_position_combinations'', get max_pos_combs_dict variant),
                (''humaneval_max_length'', PyInt (if max_prompt_tokens \<ge> 4000 then 1000 else 500)),
                (''max_prompt_tokens'', PyInt max_prompt_tokens),
                (''max_humaneval_snippets'', PyInt 1000000),
                (''num_distractors'', PyInt distractors),
                (''seed'', PyInt seed),
                (''output'', PyStr (''./data/krc/krc_'' @ str_int max_prompt_tokens @ ''_'' @ variant
                   @ ''_'' @ mname @ ''_'' @ str_int distractors @ ''_distractors_seed''
                   @ str_int seed @ ''.json.gz''))]))"

text \<open>\<^verbatim>\<open>itertools.product\<close> varies its last argument fastest.\<close>

definition generate_krc :: "int \<Rightarrow> os_error + job list" where
  "generate_krc max_prompt_tokens =
     collect [krc_job max_prompt_tokens model variant distractors seed.
                model \<leftarrow> models,
                variant \<leftarrow> [''one-step'', ''two-step'', ''three-step'', ''concatenation''],
                distractors \<leftarrow> [0, 1, 5],
                seed \<leftarrow> [100]]"

definition krfix_job ::
  "int \<Rightarrow> string \<Rightarrow> string \<Rightarrow> int \<Rightarrow> string \<Rightarrow> string \<Rightarrow> int \<Rightarrow> os_error + job" where
  "krfix_job max_prompt_tokens model variant distractors comment_type
       template_variant seed =
     (let num_key_functions_dict = [(''three-step'', 5), (''concatenation'', 5)];
          max_pos_combs_dict = [(''three-step'', PyInt 15), (''concatenation'', PyInt 15)];
          mname = last (split CHR ''/'' model)
      in case subscript num_key_functions_dict variant of
           Inl e \<Rightarrow> Inl e
         | Inr num_key_functions \<Rightarrow>
             Inr (''krfix'',
               [(''model_name'', PyStr model),
                (''variant'', PyStr variant),
                (''return_type'', PyStr ''string''),
                (''return_length'', PyInt 10),
                (''function_name'', PyStr ''random''),
                (''num_key_functions'', PyInt num_key_functions),
                (''max_position_combinations'', get max_pos_combs_dict variant),
                (''humaneval_max_length'', PyInt (if max_prompt_tokens \<ge> 4000 then 1000 else 500)),
                (''max_prompt_tokens'', PyInt max_prompt_tokens),
                (''max_humaneval_snippets'', PyInt 1000000),
                (''num_distractors'', PyInt distractors),
                (''call_graph_comment_type'', PyStr comment_type),
                (''call_graph_template_variant'', PyStr template_variant),
                (''seed'', PyInt seed),
                (''output'', PyStr (''./data/krfix/krfix_'' @ str_int max_prompt_tokens @ ''_''
                   @ variant @ ''_'' @ mname @ ''_'' @ str_int distractors @ ''_distractors_''
                   @ comment_type @ ''_'' @ template_variant @ ''_seed''
                   @ str_int seed @ ''.json.gz''))]))"

definition generate_krfix :: "int \<Rightarrow> os_error + job list" where
  "generate_krfix max_prompt_tokens =
     collect [krfix_job max_prompt_tokens model variant distractors comment_type
                template_variant seed.
                model \<leftarrow> models,
                variant \<leftarrow> [''three-step'', ''concatenation''],
                distractors \<leftarrow> [5],
                comment_type \<leftarrow> [''calls'', ''called_by'', ''calls,called_by''],
                template_variant \<leftarrow> [''calls_called_by'', ''function_names_only''],
                seed \<leftarrow> [100, 348]]"

definition krfix_one_hop_job ::
  "int \<Rightarrow> string \<Rightarrow> string \<Rightarrow> int \<Rightarrow> string \<Rightarrow> string \<Rightarrow> int \<Rightarrow> os_error + job" where
  "krfix_one_hop_job max_prompt_tokens model variant distractors comment_type
       template_variant seed =
     (let num_key_functions_dict = [(''three-step'', 5)];
          max_pos_combs_dict = [(''three-step'', PyInt 15)];
          mname = last (split CHR ''/'' model)
      in case subscript num_key_functions_dict variant of
           Inl e \<Rightarrow> Inl e
         | Inr num_key_functions \<Rightarrow>
             Inr (''krfix_one_hop'',
               [(''model_name'', PyStr model),
                (''variant'', PyStr variant),
                (''return_type'', PyStr ''string''),
                (''return_length'', PyInt 10),
                (''function_name'', PyStr ''random''),
                (''num_key_functions'', PyInt num_key_functions),
                (''max_position_combinations'', get max_pos_combs_dict variant),
                (''humaneval_max_length'', PyInt (if max_prompt_tokens \<ge> 4000 then 1000 else 500)),
                (''max_prompt_tokens'', PyInt max_prompt_tokens),
                (''max_humaneval_snippets'', PyInt 1000000),
                (''num_distractors'', PyInt distractors),
                (''call_graph_comment_type'', PyStr comment_type),
                (''call_graph_template_variant'', PyStr template_variant),
                (''call_graph_comment_position'', PyStr ''before''),
                (''seed'', PyInt seed),
                (''output'', PyStr (''./data/krfix_one_hop/krfix_one_hop_''
                   @ str_int max_prompt_tokens @ ''_'' @ variant @ ''_'' @ mname @ ''_''
                   @ str_int distractors @ ''_distractors_'' @ comment_type @ ''_''
                   @ template_variant @ ''_seed'' @ str_int seed @ ''.json.gz''))]))"

definition generate_krfix_one_hop :: "int \<Rightarrow> os_error + job list" where
  "generate_krfix_one_hop max_prompt_tokens =
     collect [krfix_one_hop_job max_prompt_tokens model variant distractors
                comment_type template_variant seed.
                model \<leftarrow> models,
                variant \<leftarrow> [''three-step''],
                distractors \<leftarrow> [5],
                comment_type \<leftarrow>
                  [''calls_one_hop'', ''called_by_one_hop'', ''calls_one_hop,called_by_one_hop''],
                template_variant \<leftarrow> [''calls_called_by'', ''function_names_only''],
                seed \<leftarrow> [100, 348]]"

text \<open>
  \<^verbatim>\<open>os.path.dirname\<close> (POSIX): the path up to its last slash, without trailing slashes
  unless it consists of slashes only.
\<close>

definition dirname :: "string \<Rightarrow> string" where
  "dirname p =
     (let head = rev (dropWhile (\<lambda>c. c \<noteq> CHR ''/'') (rev p)) in
      if head \<noteq> [] \<and> head \<noteq> replicate (length head) CHR ''/''
      then rev (dropWhile (\<lambda>c. c = CHR ''/'') (rev head))
      else head)"

text \<open>
  The inner loop of \<^verbatim>\<open>tasks\<close>: \<^verbatim>\<open>for key, value in config.items()\<close>, appending a flag and
  the stringified value for every value that is not \<^verbatim>\<open>None\<close>.
\<close>

fun args_loop :: "(string \<times> pyval) list \<Rightarrow> string list \<Rightarrow> string list" where
  "args_loop [] args = args"
| "args_loop ((key, val) # items) args =
     args_loop items (if val \<noteq> PyNone then args @ [''--'' @ key, str val] else args)"

text \<open>
  The outer loop. After the arguments of a job are built, the directory of
  \<^verbatim>\<open>config["output"]\<close> is created: the subscript raises \<^verbatim>\<open>KeyError\<close> without that key,
  \<^verbatim>\<open>dirname\<close> raises \<^verbatim>\<open>TypeError\<close> on a value that is no string, and \<^verbatim>\<open>os.makedirs\<close>
  raises \<^verbatim>\<open>FileNotFoundError\<close> on the empty path. The file system itself is outside the
  model: creating a directory with a non-empty name is taken to succeed.
\<close>

fun tasks_loop :: "job list \<Rightarrow> string list list \<Rightarrow> os_error + string list list" where
  "tasks_loop [] result = Inr result"
| "tasks_loop ((experiment, config) # configs) result =
     (let args = args_loop config [experiment] in
      case subscript config ''output'' of
        Inl e \<Rightarrow> Inl e
      | Inr PyNone \<Rightarrow> Inl TypeError
      | Inr (PyInt i) \<Rightarrow> Inl TypeError
      | Inr (PyStr path) \<Rightarrow>
          if dirname path = [] then Inl FileNotFoundError
          else tasks_loop configs (result @ [args]))"

definition tasks :: "job list \<Rightarrow> os_error + string list list" where
  "tasks configs = tasks_loop configs []"

text \<open>
  The argument list as the interface description words it: the task kind, then for every
  field whose value is not null, in the order of the fields, the flag \<^verbatim>\<open>--<key>\<close> and the
  stringified value.
\<close>

definition nonnull :: "string \<times> pyval \<Rightarrow> bool" where
  "nonnull item = (snd item \<noteq> PyNone)"

definition args_spec :: "job \<Rightarrow> string list" where
  "args_spec j =
     fst j # concat (map (\<lambda>item. [''--'' @ fst item, str (snd item)]) (filter nonnull (snd j)))"

section \<open>Concrete instances used to exercise the theorems\<close>

definition cfg0 :: configuration where
  "cfg0 = \<lparr>return_type = ''integer'', return_length = 3, function_name_cfg = ''fixed'',
      function_name_min_parts = 2, function_name_max_parts = 3, function_name_part_length = 2,
      call_graph_comment_type = [], call_graph_template_variant = []\<rparr>"

definition cfg_fixed :: configuration where
  "cfg_fixed = \<lparr>return_type = ''string'', return_length = 1, function_name_cfg = ''fixed'',
      function_name_min_parts = 2, function_name_max_parts = 3, function_name_part_length = 2,
      call_graph_comment_type = [], call_graph_template_variant = []\<rparr>"


definition cfg_concat :: configuration where
  "cfg_concat = \<lparr>return_type = ''string'', return_length = 10, function_name_cfg = ''fixed'',
      function_name_min_parts = 2, function_name_max_parts = 3, function_name_part_length = 2,
      call_graph_comment_type = ''calls,called_by'',
      call_graph_template_variant = ''function_names_only''\<rparr>"



section \<open>Properties of the value and name synthesizer\<close>

declare random_string_loop.simps [simp del]
declare random_integer_loop.simps [simp del]
declare str_nat.simps [simp del]

lemma choice_in: "seq \<noteq> [] \<Longrightarrow> fst (choice seq g) \<in> set seq"
  by (simp add: choice_def)

lemma random_string_loop_shape:
  "random_string_loop len r g = (r', g') \<Longrightarrow>
     \<exists>s. r' = r @ s \<and> int (length r') = max (int (length r)) len \<and> set s \<subseteq> set lowercase"
proof (induction len r g arbitrary: r' g' rule: random_string_loop.induct)
  case (1 len r g)
  show ?case
  proof (cases "int (length r) < len")
    case False
    with "1.prems" show ?thesis
      by (auto simp add: random_string_loop.simps [of len r g])
  next
    case True
    obtain c g1 where c: "choice lowercase g = (c, g1)"
      by (cases "choice lowercase g")
    from True c "1.prems" have run: "random_string_loop len (r @ [c]) g1 = (r', g')"
      by (simp add: random_string_loop.simps [of len r g])
    from "1.IH" [OF True c [symmetric] run] obtain s where
      s: "r' = (r @ [c]) @ s" "int (length r') = max (int (length (r @ [c]))) len"
         "set s \<subseteq> set lowercase"
      by blast
    have cin: "c \<in> set lowercase"
      using choice_in [of lowercase g] c by (simp add: lowercase_def)
    have "r' = r @ (c # s)" using s(1) by simp
    moreover have "int (length r') = max (int (length r)) len" using s(2) True by simp
    moreover have "set (c # s) \<subseteq> set lowercase" using s(3) cin by simp
    ultimately show ?thesis by blast
  qed
qed

lemma random_integer_loop_shape:
  "random_integer_loop len r g = (r', g') \<Longrightarrow>
     \<exists>s. r' = r @ s \<and> int (length r') = max (int (length r)) len \<and> set s \<subseteq> set digits \<and>
         (r = [] \<and> 0 < len \<longrightarrow> s \<noteq> [] \<and> hd s \<in> set nonzero_digits)"
proof (induction len r g arbitrary: r' g' rule: random_integer_loop.induct)
  case (1 len r g)
  show ?case
  proof (cases "int (length r) < len")
    case False
    with "1.prems" show ?thesis
      by (auto simp add: random_integer_loop.simps [of len r g])
  next
    case True
    obtain c g1 where c: "choice (if r \<noteq> [] then digits else nonzero_digits) g = (c, g1)"
      by (cases "choice (if r \<noteq> [] then digits else nonzero_digits) g")
    from True c "1.prems" have run: "random_integer_loop len (r @ [c]) g1 = (r', g')"
      by (simp add: random_integer_loop.simps [of len r g])
    from "1.IH" [OF True c [symmetric] run] obtain s where
      s: "r' = (r @ [c]) @ s" "int (length r') = max (int (length (r @ [c]))) len"
         "set s \<subseteq> set digits"
      by blast
    have cin: "c \<in> set (if r \<noteq> [] then digits else nonzero_digits)"
      using choice_in [of "if r \<noteq> [] then digits else nonzero_digits" g] c
      by (simp add: digits_def nonzero_digits_def split: if_splits)
    have sub: "set nonzero_digits \<subseteq> set digits"
      by (simp add: digits_def nonzero_digits_def)
    have cd: "c \<in> set digits" using cin sub by (auto split: if_splits)
    have "r' = r @ (c # s)" using s(1) by simp
    moreover have "int (length r') = max (int (length r)) len" using s(2) True by simp
    moreover have "set (c # s) \<subseteq> set digits" using s(3) cd by simp
    moreover have "r = [] \<and> 0 < len \<longrightarrow> c # s \<noteq> [] \<and> hd (c # s) \<in> set nonzero_digits"
      using cin by auto
    ultimately show ?thesis by blast
  qed
qed

lemma random_string_shape:
  "int (length (fst (random_string len g))) = max 0 len \<and>
   set (fst (random_string len g)) \<subseteq> set lowercase"
  using random_string_loop_shape [of len "[]" g "fst (random_string len g)" "snd (random_string len g)"]
  by (auto simp: random_string_def)

lemma random_integer_shape:
  "int (length (fst (random_integer len g))) = max 0 len \<and>
   set (fst (random_integer len g)) \<subseteq> set digits \<and>
   (0 < len \<longrightarrow> hd (fst (random_integer len g)) \<in> set nonzero_digits)"
  using random_integer_loop_shape [of len "[]" g "fst (random_integer len g)" "snd (random_integer len g)"]
  by (auto simp: random_integer_def)

lemma uniquify_Some_aux:
  assumes "uniquify generator tb = Some y"
  shows "fst y \<notin> used_values tb \<and> used_values (snd y) = insert (fst y) (used_values tb) \<and>
     (\<exists>g. fst y = fst (generator g))"
proof (rule uniquify.raw_induct [OF _ assms])
  fix u gen and t :: TaskBuilder and z
  assume IH: "\<And>gen t z. u gen t = Some z \<Longrightarrow>
          fst z \<notin> used_values t \<and> used_values (snd z) = insert (fst z) (used_values t) \<and>
          (\<exists>g. fst z = fst (gen g))"
    and body: "(case gen (rng t) of (v, g') \<Rightarrow>
        if v \<notin> used_values t
        then Some (v, \<lparr>rng = g', used_values = insert v (used_values t)\<rparr>)
        else u gen (t\<lparr>rng := g'\<rparr>)) = Some z"
  obtain v g' where gen: "gen (rng t) = (v, g')"
    by (cases "gen (rng t)")
  show "fst z \<notin> used_values t \<and> used_values (snd z) = insert (fst z) (used_values t) \<and>
          (\<exists>g. fst z = fst (gen g))"
  proof (cases "v \<in> used_values t")
    case True
    with gen body have "u gen (t\<lparr>rng := g'\<rparr>) = Some z" by simp
    from IH [OF this] show ?thesis by simp
  next
    case False
    with gen body have "z = (v, \<lparr>rng = g', used_values = insert v (used_values t)\<rparr>)"
      by simp
    with False gen show ?thesis by (auto intro: exI [of _ "rng t"])
  qed
qed

lemma uniquify_Some:
  "uniquify generator tb = Some (v, tb') \<Longrightarrow>
     v \<notin> used_values tb \<and> used_values tb' = insert v (used_values tb) \<and>
     (\<exists>g. v = fst (generator g))"
  using uniquify_Some_aux [of generator tb "(v, tb')"] by simp


lemma fixed_name_loop_Some_aux:
  assumes "fixed_name_loop canonical index tb = Some y"
  shows "fst y \<notin> used_values tb \<and> snd y = tb\<lparr>used_values := insert (fst y) (used_values tb)\<rparr> \<and>
     (fst y = canonical \<or> (\<exists>k. fst y = canonical @ ''_'' @ str_nat k))"
proof (rule fixed_name_loop.raw_induct [OF _ assms])
  fix loop c i and t :: TaskBuilder and z
  assume IH: "\<And>c i t z. loop c i t = Some z \<Longrightarrow>
     fst z \<notin> used_values t \<and> snd z = t\<lparr>used_values := insert (fst z) (used_values t)\<rparr> \<and>
     (fst z = c \<or> (\<exists>k. fst z = c @ ''_'' @ str_nat k))"
    and body: "(let candidate = (if i = 0 then c else c @ ''_'' @ str_nat i) in
      if candidate \<notin> used_values t
      then Some (candidate, t\<lparr>used_values := insert candidate (used_values t)\<rparr>)
      else loop c (i + 1) t) = Some z"
  define candidate where "candidate = (if i = 0 then c else c @ ''_'' @ str_nat i)"
  show "fst z \<notin> used_values t \<and> snd z = t\<lparr>used_values := insert (fst z) (used_values t)\<rparr> \<and>
     (fst z = c \<or> (\<exists>k. fst z = c @ ''_'' @ str_nat k))"
  proof (cases "candidate \<in> used_values t")
    case True
    with body have "loop c (i + 1) t = Some z"
      by (simp add: candidate_def Let_def)
    from IH [OF this] show ?thesis .
  next
    case False
    with body have "z = (candidate, t\<lparr>used_values := insert candidate (used_values t)\<rparr>)"
      by (simp add: candidate_def Let_def)
    with False show ?thesis by (auto simp: candidate_def)
  qed
qed

lemma fixed_name_loop_Some:
  "fixed_name_loop canonical index tb = Some (candidate, tb') \<Longrightarrow>
     candidate \<notin> used_values tb \<and> tb' = tb\<lparr>used_values := insert candidate (used_values tb)\<rparr> \<and>
     (candidate = canonical \<or> (\<exists>k. candidate = canonical @ ''_'' @ str_nat k))"
  using fixed_name_loop_Some_aux [of canonical index tb "(candidate, tb')"] by simp

lemma nonzero_digits_no_zero: "c \<in> set nonzero_digits \<Longrightarrow> c \<noteq> CHR ''0''"
  by (auto simp: nonzero_digits_def)

text \<open>
  C6. For a length \<open>L > 0\<close>, \<^verbatim>\<open>random_integer(L)\<close> returns exactly \<open>L\<close> digits and the first
  is one of \<^verbatim>\<open>1\<close> to \<^verbatim>\<open>9\<close>; so with \<^verbatim>\<open>return_type = "integer"\<close> a value that
  \<^verbatim>\<open>value\<close> returns for the length \<open>L\<close> (given, or the default \<^verbatim>\<open>return_length\<close>) has \<open>L\<close>
  digits and does not start with \<^verbatim>\<open>0\<close>.
\<close>

theorem random_integer_no_leading_zero:
  "0 < L \<Longrightarrow>
     (case random_integer L g of
        (r, g') \<Rightarrow> int (length r) = L \<and> set r \<subseteq> set digits \<and>
                   hd r \<in> set nonzero_digits \<and> hd r \<noteq> CHR ''0'') \<and>
     (\<forall>cfg length_opt tb v tb'.
        return_type cfg = ''integer'' \<and>
        (length_opt = Some L \<or> length_opt = None \<and> return_length cfg = L) \<and>
        value_fn cfg length_opt tb = Some (Inr v, tb')
        \<longrightarrow> int (length v) = L \<and> set v \<subseteq> set digits \<and> hd v \<noteq> CHR ''0'')"
proof (intro conjI allI impI)
  assume L: "0 < L"
  have shape: "int (length (fst (random_integer L h))) = L \<and>
      set (fst (random_integer L h)) \<subseteq> set digits \<and>
      hd (fst (random_integer L h)) \<in> set nonzero_digits" for h
    using random_integer_shape [of L h] L by simp
  show "case random_integer L g of
        (r, g') \<Rightarrow> int (length r) = L \<and> set r \<subseteq> set digits \<and>
                   hd r \<in> set nonzero_digits \<and> hd r \<noteq> CHR ''0''"
  proof (cases "random_integer L g")
    case (Pair r g')
    with shape [of g] have "int (length r) = L" "set r \<subseteq> set digits" "hd r \<in> set nonzero_digits"
      by simp_all
    with Pair nonzero_digits_no_zero [of "hd r"] show ?thesis by simp
  qed
  fix cfg length_opt tb v tb'
  assume a: "return_type cfg = ''integer'' \<and>
        (length_opt = Some L \<or> length_opt = None \<and> return_length cfg = L) \<and>
        value_fn cfg length_opt tb = Some (Inr v, tb')"
  then have "uniquify (random_integer L) tb = Some (v, tb')"
    by (auto simp: value_fn_def split: option.splits)
  from uniquify_Some [OF this] obtain h where "v = fst (random_integer L h)"
    by blast
  with shape [of h] nonzero_digits_no_zero
  show "int (length v) = L" "set v \<subseteq> set digits" "hd v \<noteq> CHR ''0''"
    by auto
qed

theorem random_integer_no_leading_zero_witness:
  "(0::int) < 3 \<and> random_integer 3 (sconst 0) = (''100'', sconst 0) \<and>
   value_fn cfg0 None (TaskBuilder_init (sconst 0))
     = Some (Inr ''100'', \<lparr>rng = sconst 0, used_values = {''100''}\<rparr>) \<and>
   hd ''100'' \<noteq> CHR ''0''"
proof -
  have r: "random_integer 3 (sconst 0) = (''100'', sconst 0)"
    by (simp add: random_integer_def random_integer_loop.simps choice_def digits_def
        nonzero_digits_def)
  have v: "value_fn cfg0 None (TaskBuilder_init (sconst 0))
     = Some (Inr ''100'', \<lparr>rng = sconst 0, used_values = {''100''}\<rparr>)"
    by (simp add: value_fn_def cfg0_def TaskBuilder_init_def uniquify.simps r)
  have "hd ''100'' \<noteq> CHR ''0''"
    using random_integer_no_leading_zero [of 3 "sconst 0"] v
    by (auto simp: cfg0_def)
  with r v show ?thesis by simp
qed

lemma str_nat_1: "str_nat 1 = ''1''" "str_nat (Suc 0) = ''1''"
  by (simp_all add: str_nat.simps digits_def)

lemma fixed_name_loop_skip:
  "i \<le> k \<Longrightarrow>
   (\<forall>j. i \<le> j \<and> j < k \<longrightarrow> (if j = 0 then C else C @ ''_'' @ str_nat j) \<in> used_values tb) \<Longrightarrow>
   (if k = 0 then C else C @ ''_'' @ str_nat k) \<notin> used_values tb \<Longrightarrow>
   fixed_name_loop C i tb =
     Some (if k = 0 then C else C @ ''_'' @ str_nat k,
           tb\<lparr>used_values := insert (if k = 0 then C else C @ ''_'' @ str_nat k) (used_values tb)\<rparr>)"
proof (induction "k - i" arbitrary: i)
  case 0
  then have "i = k" by simp
  with "0.prems"(3) show ?case
    by (subst fixed_name_loop.simps) (cases "k = 0"; simp add: Let_def)
next
  case (Suc n)
  then have lt: "i < k" by simp
  with Suc.prems(2) have used: "(if i = 0 then C else C @ ''_'' @ str_nat i) \<in> used_values tb"
    by blast
  have "fixed_name_loop C i tb = fixed_name_loop C (i + 1) tb"
    using used by (subst fixed_name_loop.simps) (cases "i = 0"; simp add: Let_def)
  also have "\<dots> = Some (if k = 0 then C else C @ ''_'' @ str_nat k,
           tb\<lparr>used_values := insert (if k = 0 then C else C @ ''_'' @ str_nat k) (used_values tb)\<rparr>)"
  proof (rule Suc.hyps(1))
    show "n = k - (i + 1)" using Suc.hyps(2) by simp
    show "i + 1 \<le> k" using lt by simp
    show "\<forall>j. i + 1 \<le> j \<and> j < k \<longrightarrow> (if j = 0 then C else C @ ''_'' @ str_nat j) \<in> used_values tb"
    proof (intro allI impI)
      fix j
      assume "i + 1 \<le> j \<and> j < k"
      then have "i \<le> j \<and> j < k" by simp
      with Suc.prems(2) show "(if j = 0 then C else C @ ''_'' @ str_nat j) \<in> used_values tb"
        by blast
    qed
    show "(if k = 0 then C else C @ ''_'' @ str_nat k) \<notin> used_values tb"
      using Suc.prems(3) .
  qed
  finally show ?case .
qed

text \<open>
  C5, as amended. Under the fixed scheme, \<^verbatim>\<open>function_name(C)\<close> returns \<open>C\<close> itself when \<open>C\<close>
  is not in the registry, and \<open>C_1\<close> when \<open>C\<close> is in the registry and \<open>C_1\<close> is not; in
  general it returns the first of \<open>C, C_1, C_2, \<dots>\<close> that is not in the registry, and
  records it. So the first request for \<open>C\<close> gives \<open>C\<close> only if nothing has put \<open>C\<close> into the
  registry before.
\<close>

theorem fixed_name_suffix:
  "function_name_cfg cfg = ''fixed'' \<Longrightarrow>
   (C \<notin> used_values tb \<longrightarrow>
      function_name cfg C tb = Some (Inr C, tb\<lparr>used_values := insert C (used_values tb)\<rparr>)) \<and>
   (C \<in> used_values tb \<and> C @ ''_1'' \<notin> used_values tb \<longrightarrow>
      function_name cfg C tb =
        Some (Inr (C @ ''_1''), tb\<lparr>used_values := insert (C @ ''_1'') (used_values tb)\<rparr>)) \<and>
   (\<forall>k. (\<forall>j<k. (if j = 0 then C else C @ ''_'' @ str_nat j) \<in> used_values tb) \<and>
        (if k = 0 then C else C @ ''_'' @ str_nat k) \<notin> used_values tb \<longrightarrow>
      function_name cfg C tb =
        Some (Inr (if k = 0 then C else C @ ''_'' @ str_nat k),
              tb\<lparr>used_values :=
                   insert (if k = 0 then C else C @ ''_'' @ str_nat k) (used_values tb)\<rparr>))"
proof -
  assume fixed: "function_name_cfg cfg = ''fixed''"
  have gen: "function_name cfg C tb =
        Some (Inr (if k = 0 then C else C @ ''_'' @ str_nat k),
              tb\<lparr>used_values :=
                   insert (if k = 0 then C else C @ ''_'' @ str_nat k) (used_values tb)\<rparr>)"
    if "\<forall>j<k. (if j = 0 then C else C @ ''_'' @ str_nat j) \<in> used_values tb"
      and "(if k = 0 then C else C @ ''_'' @ str_nat k) \<notin> used_values tb" for k
    using fixed fixed_name_loop_skip [of 0 k C tb] that
    by (simp add: function_name_def)
  have first: "function_name cfg C tb = Some (Inr C, tb\<lparr>used_values := insert C (used_values tb)\<rparr>)"
    if "C \<notin> used_values tb"
    using gen [of 0] that by simp
  have second: "function_name cfg C tb =
        Some (Inr (C @ ''_1''), tb\<lparr>used_values := insert (C @ ''_1'') (used_values tb)\<rparr>)"
    if "C \<in> used_values tb" "C @ ''_1'' \<notin> used_values tb"
    using gen [of 1] that by (simp add: str_nat_1)
  from gen first second show ?thesis by blast
qed

theorem fixed_name_suffix_witness:
  "function_name_cfg cfg_fixed = ''fixed'' \<and>
   function_name cfg_fixed ''key_function'' (TaskBuilder_init (sconst 0))
     = Some (Inr ''key_function'', \<lparr>rng = sconst 0, used_values = {''key_function''}\<rparr>) \<and>
   function_name cfg_fixed ''key_function'' \<lparr>rng = sconst 0, used_values = {''key_function''}\<rparr>
     = Some (Inr ''key_function_1'',
             \<lparr>rng = sconst 0, used_values = {''key_function_1'', ''key_function''}\<rparr>) \<and>
   function_name cfg_fixed ''key_function''
       \<lparr>rng = sconst 0, used_values = {''key_function_1'', ''key_function''}\<rparr>
     = Some (Inr ''key_function_2'',
             \<lparr>rng = sconst 0,
                used_values = {''key_function_2'', ''key_function_1'', ''key_function''}\<rparr>)"
proof -
  have f: "function_name_cfg cfg_fixed = ''fixed''" by (simp add: cfg_fixed_def)
  have s2: "str_nat 2 = ''2''" by (simp add: str_nat.simps digits_def)
  have lt2: "j < 2 \<longleftrightarrow> j = 0 \<or> j = 1" for j :: nat by auto
  show ?thesis
    using fixed_name_suffix [OF f, of "''key_function''" "TaskBuilder_init (sconst 0)"]
      fixed_name_suffix [OF f, of "''key_function''"
        "\<lparr>rng = sconst 0, used_values = {''key_function''}\<rparr>"]
      fixed_name_suffix [OF f, of "''key_function''"
        "\<lparr>rng = sconst 0, used_values = {''key_function_1'', ''key_function''}\<rparr>",
        THEN conjunct2, THEN conjunct2, THEN spec, of 2]
    by (simp add: f TaskBuilder_init_def s2 str_nat_1 lt2)
qed

text \<open>
  C5 as stated fails: on a fresh instance the name \<^verbatim>\<open>a\<close> is requested twice, which
  records \<^verbatim>\<open>a\<close> and \<^verbatim>\<open>a_1\<close>; the first request for the canonical name \<^verbatim>\<open>a_1\<close> then
  returns \<^verbatim>\<open>a_1_1\<close>, not \<^verbatim>\<open>a_1\<close>.
\<close>

theorem fixed_name_first_call_counterexample:
  "run_calls cfg_fixed [FunctionName ''a'', FunctionName ''a'', FunctionName ''a_1'']
       (TaskBuilder_init (sconst 0))
     = Some ([Inr ''a'', Inr ''a_1'', Inr ''a_1_1''],
             \<lparr>rng = sconst 0, used_values = {''a_1_1'', ''a_1'', ''a''}\<rparr>)"
  by (simp add: run_calls_def function_name_def cfg_fixed_def TaskBuilder_init_def
      fixed_name_loop.simps str_nat.simps digits_def Let_def)

section \<open>What the registry records\<close>



lemma digits_nth: "n < 10 \<Longrightarrow> digits ! n \<in> set digits"
  by (rule nth_mem) (simp add: digits_def)

lemma str_nat_digits: "set (str_nat n) \<subseteq> set digits"
proof (induction n rule: str_nat.induct)
  case (1 n)
  show ?case
  proof (cases "n < 10")
    case True
    then show ?thesis
      using digits_nth [of n] by (simp add: str_nat.simps [of n])
  next
    case False
    have "n mod 10 < 10" by simp
    with False "1.IH" digits_nth [of "n mod 10"] show ?thesis
      by (simp add: str_nat.simps [of n])
  qed
qed








lemma join_chars: "set (join sep ps) \<subseteq> set sep \<union> \<Union> (set ` set ps)"
  by (induction sep ps rule: join.induct) auto

lemma random_parts_chars:
  "random_parts len ixs parts tb = Some (parts', tb') \<Longrightarrow>
     \<forall>p\<in>set parts. set p \<subseteq> set lowercase \<union> set digits \<Longrightarrow>
     \<forall>p\<in>set parts'. set p \<subseteq> set lowercase \<union> set digits"
proof (induction ixs arbitrary: parts tb)
  case Nil
  then show ?case by simp
next
  case (Cons i ixs)
  define sel where "sel = (if i = 0 then (random_string, tb)
            else if i = 1 then (random_integer, tb)
            else (case choice [random_integer, random_string] (rng tb) of
                    (fn, g') \<Rightarrow> (fn, tb\<lparr>rng := g'\<rparr>)))"
  obtain fn tb1 where sel: "sel = (fn, tb1)" by (cases sel)
  have fn: "fn = random_string \<or> fn = random_integer"
  proof -
    have "fst (choice [random_integer, random_string] (rng tb)) \<in> set [random_integer, random_string]"
      by (rule choice_in) simp
    with sel show ?thesis
      by (auto simp: sel_def split: if_splits prod.splits)
  qed
  from Cons.prems(1) sel obtain p tb2 where
    u: "uniquify (fn len) tb1 = Some (p, tb2)" and
    rest: "random_parts len ixs (parts @ [p]) tb2 = Some (parts', tb')"
    by (auto simp: sel_def [symmetric] split: option.splits)
  from uniquify_Some [OF u] obtain g where "p = fst (fn len g)" by auto
  with fn random_string_shape [of len g] random_integer_shape [of len g]
  have "set p \<subseteq> set lowercase \<union> set digits" by auto
  with Cons.prems(2) have "\<forall>q\<in>set (parts @ [p]). set q \<subseteq> set lowercase \<union> set digits"
    by simp
  from Cons.IH [OF rest this] show ?case .
qed













lemmas eval_simps = run_calls_def value_fn_def function_name_def randint_def uniquify.simps
  random_string_def random_string_loop.simps random_integer_def random_integer_loop.simps
  choice_def lowercase_def digits_def nonzero_digits_def TaskBuilder_init_def Let_def
  fixed_name_loop.simps str_nat.simps dquote_def upt_rec








section \<open>The shapes built by \<^verbatim>\<open>krc.py\<close>\<close>

lemma bind_outcome_Inr:
  "bind_outcome m f = Some (Inr y, tb') \<Longrightarrow>
     \<exists>x tb1. m = Some (Inr x, tb1) \<and> f x tb1 = Some (Inr y, tb')"
  by (auto simp: bind_outcome_def split: option.splits sum.splits)





lemmas build_simps = krc_build_def one_step_def two_step_def krc_three_step_def
  krc_concatenation_def krfix_build_def krfix_three_step_def krfix_concatenation_def
  call_graph_comment_def bind_outcome_def bind_error_def newline_def slice_1_neg1_def











section \<open>The annotated shapes of \<^verbatim>\<open>krfix.py\<close>\<close>

lemma split_no_sep: "c \<notin> set a \<Longrightarrow> split c a = [a]"
  by (induction a) auto

lemma split_append_sep: "c \<notin> set a \<Longrightarrow> split c (a @ c # rest) = a # split c rest"
  by (induction a) auto

lemma function_name_chars:
  assumes "function_name cfg canonical tb = Some (Inr name, tb')"
  shows "set name \<subseteq> set canonical \<union> set lowercase \<union> set digits \<union> {CHR ''_''}"
proof (cases "function_name_cfg cfg = ''random''")
  case True
  with assms obtain n_parts g' parts where
    rp: "random_parts (function_name_part_length cfg) [0 ..< nat n_parts] []
           (tb\<lparr>rng := g'\<rparr>) = Some (parts, tb')"
    and r: "name = join ''_'' parts"
    by (auto simp: function_name_def split: option.splits prod.splits sum.splits)
  from random_parts_chars [OF rp] have "\<forall>p\<in>set parts. set p \<subseteq> set lowercase \<union> set digits"
    by simp
  with join_chars [of "''_''" parts] r show ?thesis by auto
next
  case False
  with assms have l: "fixed_name_loop canonical 0 tb = Some (name, tb')"
    by (auto simp: function_name_def split: option.splits if_splits)
  from fixed_name_loop_Some [OF l] have
    "name = canonical \<or> (\<exists>k. name = canonical @ ''_'' @ str_nat k)"
    by simp
  then show ?thesis
  proof
    assume "name = canonical"
    then show ?thesis by auto
  next
    assume "\<exists>k. name = canonical @ ''_'' @ str_nat k"
    then obtain k where "name = canonical @ ''_'' @ str_nat k" by blast
    with str_nat_digits [of k] show ?thesis by auto
  qed
qed

lemma builder_name_no_newline:
  assumes "function_name cfg canonical tb = Some (Inr name, tb')"
    and "CHR 0x0A \<notin> set canonical"
  shows "CHR 0x0A \<notin> set name"
proof -
  have "CHR 0x0A \<notin> set lowercase \<union> set digits \<union> {CHR ''_''}"
    by (simp add: lowercase_def digits_def)
  with function_name_chars [OF assms(1)] assms(2) show ?thesis by blast
qed

lemma krfix_three_step_both:
  assumes cb: "str_contains ''called_by'' (call_graph_comment_type cfg)"
    and ca: "str_contains ''calls'' (call_graph_comment_type cfg)"
    and tv: "call_graph_template_variant cfg = ''function_names_only''"
    and b: "krfix_build cfg ''three-step'' tb = Some (Inr (segments, prompt, expected), tb')"
  shows "\<exists>return_value func_key func_val_1 func_val_2 tb1 tb2 tb3.
     value_fn cfg None tb = Some (Inr return_value, tb1) \<and>
     function_name cfg ''key_function'' tb1 = Some (Inr func_key, tb2) \<and>
     function_name cfg ''value_function_1'' tb2 = Some (Inr func_val_1, tb3) \<and>
     function_name cfg ''value_function_2'' tb3 = Some (Inr func_val_2, tb') \<and>
     segments =
       [''# '' @ func_val_2 @ '', '' @ func_key @ newline
          @ ''def '' @ func_val_1 @ ''():'' @ newline @ ''    return '' @ return_value,
        ''# '' @ func_val_1 @ newline @ ''# '' @ func_key @ newline
          @ ''def '' @ func_val_2 @ ''():'' @ newline @ ''    return '' @ func_val_1 @ ''()'',
        ''# '' @ func_val_2 @ '', '' @ func_val_1 @ newline
          @ ''def '' @ func_key @ ''():'' @ newline @ ''    return '' @ func_val_2 @ ''()''] \<and>
     split CHR 0x0A (segments ! 1) =
       [''# '' @ func_val_1, ''# '' @ func_key,
        ''def '' @ func_val_2 @ ''():'', ''    return '' @ func_val_1 @ ''()'']"
proof -
  have cgc: "call_graph_comment cfg direction names = Inr (''# '' @ join '', '' names @ newline)"
    for direction names
    using tv by (simp add: call_graph_comment_def)
  from b have "krfix_three_step cfg tb = Some (Inr (segments, prompt, expected), tb')"
    by (simp add: krfix_build_def)
  then obtain return_value func_key func_val_1 func_val_2 tb1 tb2 tb3 where
    v: "value_fn cfg None tb = Some (Inr return_value, tb1)" and
    k: "function_name cfg ''key_function'' tb1 = Some (Inr func_key, tb2)" and
    f1: "function_name cfg ''value_function_1'' tb2 = Some (Inr func_val_1, tb3)" and
    f2: "function_name cfg ''value_function_2'' tb3 = Some (Inr func_val_2, tb')" and
    segs: "segments =
       [''# '' @ func_val_2 @ '', '' @ func_key @ newline
          @ ''def '' @ func_val_1 @ ''():'' @ newline @ ''    return '' @ return_value,
        ''# '' @ func_val_1 @ newline @ ''# '' @ func_key @ newline
          @ ''def '' @ func_val_2 @ ''():'' @ newline @ ''    return '' @ func_val_1 @ ''()'',
        ''# '' @ func_val_2 @ '', '' @ func_val_1 @ newline
          @ ''def '' @ func_key @ ''():'' @ newline @ ''    return '' @ func_val_2 @ ''()'']"
    unfolding krfix_three_step_def Let_def
    using cb ca cgc
    by (auto dest!: bind_outcome_Inr simp: bind_error_def)
  have nk: "CHR 0x0A \<notin> set func_key" using builder_name_no_newline [OF k] by simp
  have n1: "CHR 0x0A \<notin> set func_val_1" using builder_name_no_newline [OF f1] by simp
  have n2: "CHR 0x0A \<notin> set func_val_2" using builder_name_no_newline [OF f2] by simp
  have l1: "CHR 0x0A \<notin> set (''# '' @ func_val_1)" using n1 by simp
  have l2: "CHR 0x0A \<notin> set (''# '' @ func_key)" using nk by simp
  have l3: "CHR 0x0A \<notin> set (''def '' @ func_val_2 @ ''():'')" using n2 by simp
  have l4: "CHR 0x0A \<notin> set (''    return '' @ func_val_1 @ ''()'')" using n1 by simp
  have "segments ! 1 = (''# '' @ func_val_1) @ CHR 0x0A # ((''# '' @ func_key) @ CHR 0x0A #
      ((''def '' @ func_val_2 @ ''():'') @ CHR 0x0A # (''    return '' @ func_val_1 @ ''()'')))"
    using segs by (simp add: newline_def)
  then have "split CHR 0x0A (segments ! 1) =
       [''# '' @ func_val_1, ''# '' @ func_key,
        ''def '' @ func_val_2 @ ''():'', ''    return '' @ func_val_1 @ ''()'']"
    by (simp only: split_append_sep [OF l1] split_append_sep [OF l2] split_append_sep [OF l3]
        split_no_sep [OF l4])
  with v k f1 f2 segs show ?thesis by blast
qed

text \<open>
  C7. In \<^verbatim>\<open>krfix.py\<close>, with \<^verbatim>\<open>call_graph_comment_type = "calls,called_by"\<close> and
  \<^verbatim>\<open>call_graph_template_variant = "function_names_only"\<close>, every comment is \<^verbatim>\<open># \<close>, the
  names joined by a comma and a space, and a newline. Whenever \<^verbatim>\<open>build("three-step")\<close>
  returns a task, the segment of the middle function (\<^verbatim>\<open>value_function_2\<close>) is the
  \<^verbatim>\<open>calls\<close> comment naming the first value function, the \<^verbatim>\<open>called_by\<close> comment naming the
  key function, and then the declaration: split at newlines it is exactly these two
  comment lines followed by the two lines of the declaration.
\<close>

theorem krfix_three_step_middle_comments:
  "call_graph_comment_type cfg = ''calls,called_by'' \<Longrightarrow>
   call_graph_template_variant cfg = ''function_names_only'' \<Longrightarrow>
   krfix_build cfg ''three-step'' tb = Some (Inr (segments, prompt, expected), tb') \<Longrightarrow>
   (\<forall>direction names.
      call_graph_comment cfg direction names = Inr (''# '' @ join '', '' names @ newline)) \<and>
   (\<exists>return_value func_key func_val_1 func_val_2 tb1 tb2 tb3.
     value_fn cfg None tb = Some (Inr return_value, tb1) \<and>
     function_name cfg ''key_function'' tb1 = Some (Inr func_key, tb2) \<and>
     function_name cfg ''value_function_1'' tb2 = Some (Inr func_val_1, tb3) \<and>
     function_name cfg ''value_function_2'' tb3 = Some (Inr func_val_2, tb') \<and>
     segments =
       [''# '' @ func_val_2 @ '', '' @ func_key @ newline
          @ ''def '' @ func_val_1 @ ''():'' @ newline @ ''    return '' @ return_value,
        ''# '' @ func_val_1 @ newline @ ''# '' @ func_key @ newline
          @ ''def '' @ func_val_2 @ ''():'' @ newline @ ''    return '' @ func_val_1 @ ''()'',
        ''# '' @ func_val_2 @ '', '' @ func_val_1 @ newline
          @ ''def '' @ func_key @ ''():'' @ newline @ ''    return '' @ func_val_2 @ ''()''] \<and>
     split CHR 0x0A (segments ! 1) =
       [''# '' @ func_val_1, ''# '' @ func_key,
        ''def '' @ func_val_2 @ ''():'', ''    return '' @ func_val_1 @ ''()''])"
proof (intro conjI allI)
  assume ct: "call_graph_comment_type cfg = ''calls,called_by''"
    and tv: "call_graph_template_variant cfg = ''function_names_only''"
    and b: "krfix_build cfg ''three-step'' tb = Some (Inr (segments, prompt, expected), tb')"
  show "call_graph_comment cfg direction names = Inr (''# '' @ join '', '' names @ newline)"
    for direction names
    using tv by (simp add: call_graph_comment_def)
  have "str_contains ''called_by'' (call_graph_comment_type cfg)"
    "str_contains ''calls'' (call_graph_comment_type cfg)"
    by (simp_all add: ct)
  from krfix_three_step_both [OF this tv b]
  show "\<exists>return_value func_key func_val_1 func_val_2 tb1 tb2 tb3.
     value_fn cfg None tb = Some (Inr return_value, tb1) \<and>
     function_name cfg ''key_function'' tb1 = Some (Inr func_key, tb2) \<and>
     function_name cfg ''value_function_1'' tb2 = Some (Inr func_val_1, tb3) \<and>
     function_name cfg ''value_function_2'' tb3 = Some (Inr func_val_2, tb') \<and>
     segments =
       [''# '' @ func_val_2 @ '', '' @ func_key @ newline
          @ ''def '' @ func_val_1 @ ''():'' @ newline @ ''    return '' @ return_value,
        ''# '' @ func_val_1 @ newline @ ''# '' @ func_key @ newline
          @ ''def '' @ func_val_2 @ ''():'' @ newline @ ''    return '' @ func_val_1 @ ''()'',
        ''# '' @ func_val_2 @ '', '' @ func_val_1 @ newline
          @ ''def '' @ func_key @ ''():'' @ newline @ ''    return '' @ func_val_2 @ ''()''] \<and>
     split CHR 0x0A (segments ! 1) =
       [''# '' @ func_val_1, ''# '' @ func_key,
        ''def '' @ func_val_2 @ ''():'', ''    return '' @ func_val_1 @ ''()'']" .
qed

lemma three_step_run:
  "krfix_build cfg_concat ''three-step'' (TaskBuilder_init (sconst 0))
     = Some (Inr ([''# value_function_2, key_function'' @ newline
                     @ ''def value_function_1():'' @ newline
                     @ ''    return '' @ dquote @ ''aaaaaaaaaa'' @ dquote,
                   ''# value_function_1'' @ newline @ ''# key_function'' @ newline
                     @ ''def value_function_2():'' @ newline @ ''    return value_function_1()'',
                   ''# value_function_2, value_function_1'' @ newline
                     @ ''def key_function():'' @ newline @ ''    return value_function_2()''],
                  ''assert key_function() =='',
                  '' '' @ dquote @ ''aaaaaaaaaa'' @ dquote),
             \<lparr>rng = sconst 0,
                used_values = {''value_function_2'', ''value_function_1'', ''key_function'',
                               ''aaaaaaaaaa''}\<rparr>)"
  by (simp add: eval_simps build_simps cfg_concat_def)

theorem krfix_three_step_middle_comments_witness:
  "call_graph_comment_type cfg_concat = ''calls,called_by'' \<and>
   call_graph_template_variant cfg_concat = ''function_names_only'' \<and>
   krfix_build cfg_concat ''three-step'' (TaskBuilder_init (sconst 0))
     = Some (Inr ([''# value_function_2, key_function'' @ newline
                     @ ''def value_function_1():'' @ newline
                     @ ''    return '' @ dquote @ ''aaaaaaaaaa'' @ dquote,
                   ''# value_function_1'' @ newline @ ''# key_function'' @ newline
                     @ ''def value_function_2():'' @ newline @ ''    return value_function_1()'',
                   ''# value_function_2, value_function_1'' @ newline
                     @ ''def key_function():'' @ newline @ ''    return value_function_2()''],
                  ''assert key_function() =='',
                  '' '' @ dquote @ ''aaaaaaaaaa'' @ dquote),
             \<lparr>rng = sconst 0,
                used_values = {''value_function_2'', ''value_function_1'', ''key_function'',
                               ''aaaaaaaaaa''}\<rparr>) \<and>
   call_graph_comment cfg_concat ''calls'' [''value_function_2'', ''value_function_1'']
     = Inr (''# value_function_2, value_function_1'' @ newline) \<and>
   (\<exists>func_key func_val_1 func_val_2.
      split CHR 0x0A (''# value_function_1'' @ newline @ ''# key_function'' @ newline
                     @ ''def value_function_2():'' @ newline @ ''    return value_function_1()'')
       = [''# '' @ func_val_1, ''# '' @ func_key,
          ''def '' @ func_val_2 @ ''():'', ''    return '' @ func_val_1 @ ''()''])"
proof -
  have c: "call_graph_comment_type cfg_concat = ''calls,called_by''"
    "call_graph_template_variant cfg_concat = ''function_names_only''"
    by (simp_all add: cfg_concat_def)
  note t = krfix_three_step_middle_comments [OF c three_step_run]
  from t [THEN conjunct1, rule_format, of "''calls''" "[''value_function_2'', ''value_function_1'']"]
  have cm: "call_graph_comment cfg_concat ''calls'' [''value_function_2'', ''value_function_1'']
     = Inr (''# value_function_2, value_function_1'' @ newline)"
    by simp
  from t [THEN conjunct2]
  have "\<exists>func_key func_val_1 func_val_2.
      split CHR 0x0A (''# value_function_1'' @ newline @ ''# key_function'' @ newline
                     @ ''def value_function_2():'' @ newline @ ''    return value_function_1()'')
       = [''# '' @ func_val_1, ''# '' @ func_key,
          ''def '' @ func_val_2 @ ''():'', ''    return '' @ func_val_1 @ ''()'']"
    by (simp only: nth_Cons_Suc nth_Cons_0 One_nat_def) blast
  with c three_step_run cm show ?thesis by blast
qed






section \<open>The argument lists of the dispatcher\<close>

lemma args_loop_spec:
  "args_loop items args =
     args @ concat (map (\<lambda>item. [''--'' @ fst item, str (snd item)]) (filter nonnull items))"
  by (induction items args rule: args_loop.induct) (auto simp: nonnull_def)

lemma dirname_dot_slash: "dirname (CHR ''.'' # CHR ''/'' # rest) \<noteq> []"
proof -
  define p where "p = CHR ''.'' # CHR ''/'' # rest"
  define head where "head = rev (dropWhile (\<lambda>c. c \<noteq> CHR ''/'') (rev p))"
  have "rev (takeWhile (\<lambda>c. c \<noteq> CHR ''/'') (rev p) @ dropWhile (\<lambda>c. c \<noteq> CHR ''/'') (rev p)) = p"
    by (simp only: takeWhile_dropWhile_id rev_rev_ident)
  then have split: "p = head @ rev (takeWhile (\<lambda>c. c \<noteq> CHR ''/'') (rev p))"
    by (simp only: rev_append head_def)
  have "CHR ''/'' \<in> set (rev p)" by (simp add: p_def)
  then have "dropWhile (\<lambda>c. c \<noteq> CHR ''/'') (rev p) \<noteq> []"
    by (simp add: dropWhile_eq_Nil_conv)
  then have ne: "head \<noteq> []" by (simp add: head_def)
  then obtain h hs where hd: "head = h # hs" by (cases head) auto
  with split have "h = CHR ''.''" by (simp add: p_def)
  with hd have dot: "CHR ''.'' \<in> set head" by simp
  have not_slashes: "head \<noteq> replicate (length head) CHR ''/''"
  proof
    assume "head = replicate (length head) CHR ''/''"
    with dot have "CHR ''.'' \<in> set (replicate (length head) CHR ''/'')" by simp
    then show False by simp
  qed
  from dot have "dropWhile (\<lambda>c. c = CHR ''/'') (rev head) \<noteq> []"
    by (auto simp: dropWhile_eq_Nil_conv)
  with ne not_slashes show ?thesis
    unfolding p_def [symmetric] by (simp add: dirname_def head_def [symmetric] Let_def)
qed

lemma tasks_loop_ok:
  "\<forall>j\<in>set jobs. \<exists>rest. subscript (snd j) ''output'' = Inr (PyStr (CHR ''.'' # CHR ''/'' # rest)) \<Longrightarrow>
   tasks_loop jobs result = Inr (result @ map args_spec jobs)"
proof (induction jobs arbitrary: result)
  case Nil
  then show ?case by simp
next
  case (Cons j jobs)
  obtain kind config where j: "j = (kind, config)" by (cases j)
  from Cons.prems j obtain rest where
    out: "subscript config ''output'' = Inr (PyStr (CHR ''.'' # CHR ''/'' # rest))"
    by auto
  have args: "args_loop config [kind] = args_spec j"
    by (simp add: args_loop_spec args_spec_def j)
  from Cons.prems
  have "\<forall>j\<in>set jobs. \<exists>rest. subscript (snd j) ''output'' = Inr (PyStr (CHR ''.'' # CHR ''/'' # rest))"
    by simp
  from Cons.IH [OF this, of "result @ [args_spec j]"] out args dirname_dot_slash [of rest]
  show ?case by (simp add: j Let_def)
qed

lemma collect_all_Inr:
  "\<forall>r\<in>set rs. \<exists>x. r = Inr x \<and> P x \<Longrightarrow>
     \<exists>xs. collect rs = Inr xs \<and> length xs = length rs \<and> (\<forall>x\<in>set xs. P x)"
proof (induction rs)
  case Nil
  then show ?case by simp
next
  case (Cons r rs)
  then obtain x where x: "r = Inr x" "P x" by auto
  from Cons obtain xs where "collect rs = Inr xs" "length xs = length rs" "\<forall>x\<in>set xs. P x"
    by auto
  with x show ?case by simp
qed

lemma krc_job_ok:
  "variant \<in> set [''one-step'', ''two-step'', ''three-step'', ''concatenation''] \<Longrightarrow>
   \<exists>j. krc_job m model variant d s = Inr j \<and> fst j = ''krc'' \<and>
       (\<exists>rest. subscript (snd j) ''output'' = Inr (PyStr (CHR ''.'' # CHR ''/'' # rest))) \<and>
       (if (''variant'', PyStr ''one-step'') \<in> set (snd j)
        then (''max_position_combinations'', PyNone) \<in> set (snd j) \<and>
             filter nonnull (snd j) = remove1 (''max_position_combinations'', PyNone) (snd j)
        else filter nonnull (snd j) = snd j)"
  by (auto simp: krc_job_def subscript_def get_def Let_def nonnull_def)

lemma krfix_job_ok:
  "variant \<in> set [''three-step'', ''concatenation''] \<Longrightarrow>
   \<exists>j. krfix_job m model variant d ct tv s = Inr j \<and> fst j = ''krfix'' \<and>
       (\<exists>rest. subscript (snd j) ''output'' = Inr (PyStr (CHR ''.'' # CHR ''/'' # rest))) \<and>
       filter nonnull (snd j) = snd j"
  by (auto simp: krfix_job_def subscript_def get_def Let_def nonnull_def)

lemma krfix_one_hop_job_ok:
  "variant \<in> set [''three-step''] \<Longrightarrow>
   \<exists>j. krfix_one_hop_job m model variant d ct tv s = Inr j \<and> fst j = ''krfix_one_hop'' \<and>
       (\<exists>rest. subscript (snd j) ''output'' = Inr (PyStr (CHR ''.'' # CHR ''/'' # rest))) \<and>
       filter nonnull (snd j) = snd j"
  by (auto simp: krfix_one_hop_job_def subscript_def get_def Let_def nonnull_def)

text \<open>
  C8. For every \<^verbatim>\<open>max_prompt_tokens\<close>, each of the three enumerations yields its jobs (60,
  120 and 60 of them) without raising, and \<^verbatim>\<open>tasks\<close> turns them, in order, into the argument
  lists of the interface description: the task kind first, then \<^verbatim>\<open>--<key>\<close> and the
  stringified value for every field that is not null, in the order of the fields. In a
  \<^verbatim>\<open>krc\<close> job of the one-step variant the field \<^verbatim>\<open>max_position_combinations\<close> is null and
  is the one field left out; in every other job no field is null.
\<close>

theorem tasks_argument_lists:
  "(\<exists>jobs. generate_krc m = Inr jobs \<and> length jobs = 60 \<and>
      tasks jobs = Inr (map args_spec jobs) \<and>
      (\<forall>j\<in>set jobs. fst j = ''krc'' \<and>
         (if (''variant'', PyStr ''one-step'') \<in> set (snd j)
          then (''max_position_combinations'', PyNone) \<in> set (snd j) \<and>
               filter nonnull (snd j) = remove1 (''max_position_combinations'', PyNone) (snd j)
          else filter nonnull (snd j) = snd j))) \<and>
   (\<exists>jobs. generate_krfix m = Inr jobs \<and> length jobs = 120 \<and>
      tasks jobs = Inr (map args_spec jobs) \<and>
      (\<forall>j\<in>set jobs. fst j = ''krfix'' \<and> filter nonnull (snd j) = snd j)) \<and>
   (\<exists>jobs. generate_krfix_one_hop m = Inr jobs \<and> length jobs = 60 \<and>
      tasks jobs = Inr (map args_spec jobs) \<and>
      (\<forall>j\<in>set jobs. fst j = ''krfix_one_hop'' \<and> filter nonnull (snd j) = snd j))"
proof (intro conjI)
  let ?out = "\<lambda>j. \<exists>rest. subscript (snd j) ''output'' = Inr (PyStr (CHR ''.'' # CHR ''/'' # rest))"
  let ?krc = "[krc_job m model variant distractors seed.
                model \<leftarrow> models,
                variant \<leftarrow> [''one-step'', ''two-step'', ''three-step'', ''concatenation''],
                distractors \<leftarrow> [0, 1, 5],
                seed \<leftarrow> [100]]"
  let ?P = "\<lambda>j. fst j = ''krc'' \<and> ?out j \<and>
         (if (''variant'', PyStr ''one-step'') \<in> set (snd j)
          then (''max_position_combinations'', PyNone) \<in> set (snd j) \<and>
               filter nonnull (snd j) = remove1 (''max_position_combinations'', PyNone) (snd j)
          else filter nonnull (snd j) = snd j)"
  have "\<forall>r\<in>set ?krc. \<exists>x. r = Inr x \<and> ?P x"
  proof
    fix r assume "r \<in> set ?krc"
    then obtain model variant d s where
      "r = krc_job m model variant d s"
      "variant \<in> set [''one-step'', ''two-step'', ''three-step'', ''concatenation'']"
      by auto
    with krc_job_ok [of variant m model d s] show "\<exists>x. r = Inr x \<and> ?P x" by simp
  qed
  from collect_all_Inr [of ?krc ?P, OF this] obtain jobs where
    jobs: "generate_krc m = Inr jobs" "length jobs = length ?krc" "\<forall>x\<in>set jobs. ?P x"
    by (auto simp: generate_krc_def)
  have "length ?krc = 60" by (simp add: models_def)
  moreover from jobs(3) have "tasks jobs = Inr (map args_spec jobs)"
    using tasks_loop_ok [of jobs "[]"] by (simp add: tasks_def)
  ultimately show "\<exists>jobs. generate_krc m = Inr jobs \<and> length jobs = 60 \<and>
      tasks jobs = Inr (map args_spec jobs) \<and>
      (\<forall>j\<in>set jobs. fst j = ''krc'' \<and>
         (if (''variant'', PyStr ''one-step'') \<in> set (snd j)
          then (''max_position_combinations'', PyNone) \<in> set (snd j) \<and>
               filter nonnull (snd j) = remove1 (''max_position_combinations'', PyNone) (snd j)
          else filter nonnull (snd j) = snd j))"
    using jobs by (intro exI [of _ jobs]) simp
next
  let ?out = "\<lambda>j. \<exists>rest. subscript (snd j) ''output'' = Inr (PyStr (CHR ''.'' # CHR ''/'' # rest))"
  let ?krfix = "[krfix_job m model variant distractors comment_type template_variant seed.
                model \<leftarrow> models,
                variant \<leftarrow> [''three-step'', ''concatenation''],
                distractors \<leftarrow> [5],
                comment_type \<leftarrow> [''calls'', ''called_by'', ''calls,called_by''],
                template_variant \<leftarrow> [''calls_called_by'', ''function_names_only''],
                seed \<leftarrow> [100, 348]]"
  let ?P = "\<lambda>j. fst j = ''krfix'' \<and> ?out j \<and> filter nonnull (snd j) = snd j"
  have "\<forall>r\<in>set ?krfix. \<exists>x. r = Inr x \<and> ?P x"
  proof
    fix r assume "r \<in> set ?krfix"
    then obtain model variant d ct tv s where
      "r = krfix_job m model variant d ct tv s"
      "variant \<in> set [''three-step'', ''concatenation'']"
      by auto
    with krfix_job_ok [of variant m model d ct tv s] show "\<exists>x. r = Inr x \<and> ?P x" by simp
  qed
  from collect_all_Inr [of ?krfix ?P, OF this] obtain jobs where
    jobs: "generate_krfix m = Inr jobs" "length jobs = length ?krfix" "\<forall>x\<in>set jobs. ?P x"
    by (auto simp: generate_krfix_def)
  have "length ?krfix = 120" by (simp add: models_def)
  moreover from jobs(3) have "tasks jobs = Inr (map args_spec jobs)"
    using tasks_loop_ok [of jobs "[]"] by (simp add: tasks_def)
  ultimately show "\<exists>jobs. generate_krfix m = Inr jobs \<and> length jobs = 120 \<and>
      tasks jobs = Inr (map args_spec jobs) \<and>
      (\<forall>j\<in>set jobs. fst j = ''krfix'' \<and> filter nonnull (snd j) = snd j)"
    using jobs by (intro exI [of _ jobs]) simp
next
  let ?out = "\<lambda>j. \<exists>rest. subscript (snd j) ''output'' = Inr (PyStr (CHR ''.'' # CHR ''/'' # rest))"
  let ?hop = "[krfix_one_hop_job m model variant distractors comment_type template_variant seed.
                model \<leftarrow> models,
                variant \<leftarrow> [''three-step''],
                distractors \<leftarrow> [5],
                comment_type \<leftarrow>
                  [''calls_one_hop'', ''called_by_one_hop'', ''calls_one_hop,called_by_one_hop''],
                template_variant \<leftarrow> [''calls_called_by'', ''function_names_only''],
                seed \<leftarrow> [100, 348]]"
  let ?P = "\<lambda>j. fst j = ''krfix_one_hop'' \<and> ?out j \<and> filter nonnull (snd j) = snd j"
  have "\<forall>r\<in>set ?hop. \<exists>x. r = Inr x \<and> ?P x"
  proof
    fix r assume "r \<in> set ?hop"
    then obtain model variant d ct tv s where
      "r = krfix_one_hop_job m model variant d ct tv s"
      "variant \<in> set [''three-step'']"
      by auto
    with krfix_one_hop_job_ok [of variant m model d ct tv s] show "\<exists>x. r = Inr x \<and> ?P x" by simp
  qed
  from collect_all_Inr [of ?hop ?P, OF this] obtain jobs where
    jobs: "generate_krfix_one_hop m = Inr jobs" "length jobs = length ?hop" "\<forall>x\<in>set jobs. ?P x"
    by (auto simp: generate_krfix_one_hop_def)
  have "length ?hop = 60" by (simp add: models_def)
  moreover from jobs(3) have "tasks jobs = Inr (map args_spec jobs)"
    using tasks_loop_ok [of jobs "[]"] by (simp add: tasks_def)
  ultimately show "\<exists>jobs. generate_krfix_one_hop m = Inr jobs \<and> length jobs = 60 \<and>
      tasks jobs = Inr (map args_spec jobs) \<and>
      (\<forall>j\<in>set jobs. fst j = ''krfix_one_hop'' \<and> filter nonnull (snd j) = snd j)"
    using jobs by (intro exI [of _ jobs]) simp
qed

lemma collect_Inr_map: "collect rs = Inr xs \<Longrightarrow> rs = map Inr xs"
proof (induction rs arbitrary: xs)
  case Nil
  then show ?case by simp
next
  case (Cons r rs)
  then show ?case
    by (cases r) (auto split: sum.splits)
qed

lemma first_krc_job:
  "krc_job 2000 ''mistralai/Mistral-7B-v0.1'' ''one-step'' 0 100 =
     Inr (''krc'',
       [(''model_name'', PyStr ''mistralai/Mistral-7B-v0.1''),
        (''variant'', PyStr ''one-step''),
        (''return_type'', PyStr ''string''),
        (''return_length'', PyInt 10),
        (''function_name'', PyStr ''random''),
        (''num_key_functions'', PyInt 100),
        (''max_position_combinations'', PyNone),
        (''humaneval_max_length'', PyInt 500),
        (''max_prompt_tokens'', PyInt 2000),
        (''max_humaneval_snippets'', PyInt 1000000),
        (''num_distractors'', PyInt 0),
        (''seed'', PyInt 100),
        (''output'', PyStr
           ''./data/krc/krc_2000_one-step_Mistral-7B-v0.1_0_distractors_seed100.json.gz'')])"
  by (simp add: krc_job_def subscript_def get_def Let_def str_int_def str_nat.simps digits_def)

theorem tasks_argument_lists_witness:
  "\<exists>jobs. generate_krc 2000 = Inr jobs \<and> tasks jobs = Inr (map args_spec jobs) \<and>
     (''krc'',
       [(''model_name'', PyStr ''mistralai/Mistral-7B-v0.1''),
        (''variant'', PyStr ''one-step''),
        (''return_type'', PyStr ''string''),
        (''return_length'', PyInt 10),
        (''function_name'', PyStr ''random''),
        (''num_key_functions'', PyInt 100),
        (''max_position_combinations'', PyNone),
        (''humaneval_max_length'', PyInt 500),
        (''max_prompt_tokens'', PyInt 2000),
        (''max_humaneval_snippets'', PyInt 1000000),
        (''num_distractors'', PyInt 0),
        (''seed'', PyInt 100),
        (''output'', PyStr
           ''./data/krc/krc_2000_one-step_Mistral-7B-v0.1_0_distractors_seed100.json.gz'')])
       \<in> set jobs \<and>
     [''krc'', ''--model_name'', ''mistralai/Mistral-7B-v0.1'', ''--variant'', ''one-step'',
      ''--return_type'', ''string'', ''--return_length'', ''10'', ''--function_name'', ''random'',
      ''--num_key_functions'', ''100'', ''--humaneval_max_length'', ''500'',
      ''--max_prompt_tokens'', ''2000'', ''--max_humaneval_snippets'', ''1000000'',
      ''--num_distractors'', ''0'', ''--seed'', ''100'', ''--output'',
      ''./data/krc/krc_2000_one-step_Mistral-7B-v0.1_0_distractors_seed100.json.gz'']
       \<in> set (map args_spec jobs)"
proof -
  let ?cfg = "[(''model_name'', PyStr ''mistralai/Mistral-7B-v0.1''),
        (''variant'', PyStr ''one-step''),
        (''return_type'', PyStr ''string''),
        (''return_length'', PyInt 10),
        (''function_name'', PyStr ''random''),
        (''num_key_functions'', PyInt 100),
        (''max_position_combinations'', PyNone),
        (''humaneval_max_length'', PyInt 500),
        (''max_prompt_tokens'', PyInt 2000),
        (''max_humaneval_snippets'', PyInt 1000000),
        (''num_distractors'', PyInt 0),
        (''seed'', PyInt 100),
        (''output'', PyStr
           ''./data/krc/krc_2000_one-step_Mistral-7B-v0.1_0_distractors_seed100.json.gz'')]"
  from tasks_argument_lists [of 2000] obtain jobs where
    jobs: "generate_krc 2000 = Inr jobs" "tasks jobs = Inr (map args_spec jobs)"
      "\<forall>j\<in>set jobs. fst j = ''krc'' \<and>
         (if (''variant'', PyStr ''one-step'') \<in> set (snd j)
          then (''max_position_combinations'', PyNone) \<in> set (snd j) \<and>
               filter nonnull (snd j) = remove1 (''max_position_combinations'', PyNone) (snd j)
          else filter nonnull (snd j) = snd j)"
    by blast
  note eq = collect_Inr_map [OF jobs(1) [unfolded generate_krc_def]]
  have "krc_job 2000 ''mistralai/Mistral-7B-v0.1'' ''one-step'' 0 100
      \<in> set [krc_job 2000 model variant distractors seed.
                model \<leftarrow> models,
                variant \<leftarrow> [''one-step'', ''two-step'', ''three-step'', ''concatenation''],
                distractors \<leftarrow> [0, 1, 5],
                seed \<leftarrow> [100]]"
    by (simp add: models_def)
  then have "krc_job 2000 ''mistralai/Mistral-7B-v0.1'' ''one-step'' 0 100 \<in> set (map Inr jobs)"
    by (simp only: eq)
  then have mem: "(''krc'', ?cfg) \<in> set jobs"
    by (auto simp: first_krc_job)
  with jobs(3) have "filter nonnull ?cfg = remove1 (''max_position_combinations'', PyNone) ?cfg"
    by fastforce
  then have "args_spec (''krc'', ?cfg) =
     [''krc'', ''--model_name'', ''mistralai/Mistral-7B-v0.1'', ''--variant'', ''one-step'',
      ''--return_type'', ''string'', ''--return_length'', ''10'', ''--function_name'', ''random'',
      ''--num_key_functions'', ''100'', ''--humaneval_max_length'', ''500'',
      ''--max_prompt_tokens'', ''2000'', ''--max_humaneval_snippets'', ''1000000'',
      ''--num_distractors'', ''0'', ''--seed'', ''100'', ''--output'',
      ''./data/krc/krc_2000_one-step_Mistral-7B-v0.1_0_distractors_seed100.json.gz'']"
    by (simp add: args_spec_def str_int_def str_nat.simps digits_def)
  with mem have "[''krc'', ''--model_name'', ''mistralai/Mistral-7B-v0.1'', ''--variant'', ''one-step'',
      ''--return_type'', ''string'', ''--return_length'', ''10'', ''--function_name'', ''random'',
      ''--num_key_functions'', ''100'', ''--humaneval_max_length'', ''500'',
      ''--max_prompt_tokens'', ''2000'', ''--max_humaneval_snippets'', ''1000000'',
      ''--num_distractors'', ''0'', ''--seed'', ''100'', ''--output'',
      ''./data/krc/krc_2000_one-step_Mistral-7B-v0.1_0_distractors_seed100.json.gz'']
       \<in> set (map args_spec jobs)"
    by (metis (no_types, lifting) image_eqI list.set_map)
  with jobs(1,2) mem show ?thesis by blast
qed

section \<open>Two runs from the same configuration and seed\<close>







end
